theory Spec2Isabelle
  imports Main
begin

section \<open>JavaScript values\<close>

text \<open>
  The values that flow through \<^verbatim>\<open>FormDataConsumer.tsx\<close>: form data (\<^verbatim>\<open>any\<close>),
  pass-through props (\<^verbatim>\<open>[key: string]: any\<close>) and the \<^verbatim>\<open>ReactNode\<close> a render
  callback returns. Objects are association lists read with \<open>map_of\<close> (the first
  binding of a key is the property). Numbers are integers: the component only tests a
  number for being zero. A React element is an object.
\<close>

datatype jsval =
    JUndefined
  | JNull
  | JBool bool
  | JNum int
  | JStr string
  | JArr "jsval list"
  | JObj "(string \<times> jsval) list"

datatype error =
    TypeError
  | Thrown jsval

text \<open>The test JavaScript applies to the operand of \<^verbatim>\<open>&&\<close> and of \<^verbatim>\<open>if\<close>.\<close>

fun truthy :: "jsval \<Rightarrow> bool" where
  "truthy JUndefined = False"
| "truthy JNull = False"
| "truthy (JBool b) = b"
| "truthy (JNum n) = (n \<noteq> 0)"
| "truthy (JStr s) = (s \<noteq> [])"
| "truthy (JArr xs) = True"
| "truthy (JObj kvs) = True"

text \<open>\<^verbatim>\<open>ret === undefined\<close>, without an equality test on the whole value.\<close>

fun is_undefined :: "jsval \<Rightarrow> bool" where
  "is_undefined JUndefined = True"
| "is_undefined v = False"

text \<open>\<^verbatim>\<open>object == null\<close>: true of \<^verbatim>\<open>null\<close> and \<^verbatim>\<open>undefined\<close> only.\<close>

fun nullish :: "jsval \<Rightarrow> bool" where
  "nullish JUndefined = True"
| "nullish JNull = True"
| "nullish v = False"

section \<open>Path lookup\<close>

text \<open>
  An array index as a property key: a decimal numeral without sign and without a
  leading zero (\<^verbatim>\<open>"0"\<close>, \<^verbatim>\<open>"12"\<close>; not \<^verbatim>\<open>"01"\<close>).
\<close>

definition digit_of :: "char \<Rightarrow> nat option" where
  "digit_of c =
     (let n = of_char c :: nat in if 48 \<le> n \<and> n \<le> 57 then Some (n - 48) else None)"

fun decimal :: "nat \<Rightarrow> string \<Rightarrow> nat option" where
  "decimal acc [] = Some acc"
| "decimal acc (c # cs) =
     (case digit_of c of None \<Rightarrow> None | Some d \<Rightarrow> decimal (10 * acc + d) cs)"

definition array_index :: "string \<Rightarrow> nat option" where
  "array_index k =
     (if k = [] then None
      else if hd k = CHR ''0'' \<and> tl k \<noteq> [] then None
      else decimal 0 k)"

text \<open>
  The member access \<^verbatim>\<open>object[key]\<close> on own properties. On \<^verbatim>\<open>null\<close> and
  \<^verbatim>\<open>undefined\<close> JavaScript throws a TypeError; a property that is not there reads as
  \<^verbatim>\<open>undefined\<close>. Properties inherited from a prototype are outside the model.
\<close>

fun member_access :: "jsval \<Rightarrow> string \<Rightarrow> error + jsval" where
  "member_access JUndefined k = Inl TypeError"
| "member_access JNull k = Inl TypeError"
| "member_access (JBool b) k = Inr JUndefined"
| "member_access (JNum n) k = Inr JUndefined"
| "member_access (JStr s) k =
     (if k = ''length'' then Inr (JNum (int (length s)))
      else case array_index k of
             None \<Rightarrow> Inr JUndefined
           | Some i \<Rightarrow> if i < length s then Inr (JStr [s ! i]) else Inr JUndefined)"
| "member_access (JArr xs) k =
     (if k = ''length'' then Inr (JNum (int (length xs)))
      else case array_index k of
             None \<Rightarrow> Inr JUndefined
           | Some i \<Rightarrow> if i < length xs then Inr (xs ! i) else Inr JUndefined)"
| "member_access (JObj kvs) k =
     (case map_of kvs k of None \<Rightarrow> Inr JUndefined | Some v \<Rightarrow> Inr v)"

text \<open>Whether \<open>k\<close> is an own property of the value.\<close>

fun has_own :: "jsval \<Rightarrow> string \<Rightarrow> bool" where
  "has_own (JStr s) k =
     (k = ''length'' \<or> (case array_index k of None \<Rightarrow> False | Some i \<Rightarrow> i < length s))"
| "has_own (JArr xs) k =
     (k = ''length'' \<or> (case array_index k of None \<Rightarrow> False | Some i \<Rightarrow> i < length xs))"
| "has_own (JObj kvs) k = (map_of kvs k \<noteq> None)"
| "has_own v k = False"

text \<open>
  Modelled from the spec: \<^verbatim>\<open>get\<close> is imported from \<^verbatim>\<open>lodash/get\<close>, which is not
  among the sources. The spec calls it \<open>lookup(formData, source)\<close>, the lookup of a
  dotted/bracketed path (such as \<^verbatim>\<open>users.0\<close>) in the form snapshot, which tolerates
  missing keys by yielding \<^verbatim>\<open>undefined\<close> rather than failing.

  A path is cut at \<^verbatim>\<open>.\<close>, \<^verbatim>\<open>[\<close> and \<^verbatim>\<open>]\<close>; its keys are the non-empty pieces, so
  that \<^verbatim>\<open>users.0.role\<close> and \<^verbatim>\<open>users[0].role\<close> name the same place. Quoted keys in
  brackets are outside the model. The walk reads one key after the other and stops
  at the first \<^verbatim>\<open>null\<close> or \<^verbatim>\<open>undefined\<close> it meets before the path ends; a path with
  no key at all finds nothing.
\<close>

definition is_separator :: "char \<Rightarrow> bool" where
  "is_separator c = (c = CHR ''.'' \<or> c = CHR ''['' \<or> c = CHR '']'')"

fun path_pieces :: "string \<Rightarrow> string \<Rightarrow> string list" where
  "path_pieces cur [] = (if cur = [] then [] else [cur])"
| "path_pieces cur (c # cs) =
     (if is_separator c
      then (if cur = [] then path_pieces [] cs else cur # path_pieces [] cs)
      else path_pieces (cur @ [c]) cs)"

definition stringToPath :: "string \<Rightarrow> string list" where
  "stringToPath s = path_pieces [] s"

fun baseGet :: "jsval \<Rightarrow> string list \<Rightarrow> error + jsval" where
  "baseGet object [] = Inr object"
| "baseGet object (k # ks) =
     (if nullish object then Inr JUndefined
      else case member_access object k of
             Inl e \<Rightarrow> Inl e
           | Inr v \<Rightarrow> baseGet v ks)"

definition get :: "jsval \<Rightarrow> string \<Rightarrow> error + jsval" where
  "get object path =
     (if nullish object then Inr JUndefined
      else case stringToPath path of
             [] \<Rightarrow> Inr JUndefined
           | k # ks \<Rightarrow> baseGet object (k # ks))"

text \<open>Every key of the path is an own property of the value reached so far.\<close>

fun has_path :: "jsval \<Rightarrow> string list \<Rightarrow> bool" where
  "has_path object [] = True"
| "has_path object (k # ks) =
     (has_own object k \<and>
      (case member_access object k of Inl e \<Rightarrow> False | Inr v \<Rightarrow> has_path v ks))"

section \<open>The render callback\<close>

text \<open>
  What a render callback is handed: \<^verbatim>\<open>FormDataConsumerRenderParams\<close> together with
  the pass-through props, an object whose properties are data or, under
  \<^verbatim>\<open>getSource\<close> in an iterator, the closure the view creates. The closure is
  represented by the \<^verbatim>\<open>source\<close> it captures.
\<close>

datatype param =
    Data jsval
  | GetSourceFn string

type_synonym params = "string \<rightharpoonup> param"

text \<open>
  The callback is the caller's code. What the view can observe of one call is: the
  callback returns a node, or throws, or invokes the \<^verbatim>\<open>getSource\<close> it finds in its
  parameters with a relative path and goes on with the string it gets back. The
  variable \<^verbatim>\<open>getSourceHasBeenCalled\<close> is local to the view, so the callback reaches
  it through that closure only.
\<close>

datatype render =
    Return jsval
  | Throw jsval
  | CallGetSource string "string \<Rightarrow> render"

type_synonym FormDataConsumerRender = "params \<Rightarrow> render"

text \<open>
  \<^verbatim>\<open>const getSource = (scopedSource: string) => {
      getSourceHasBeenCalled = true;
      return `${source}.${scopedSource}`;
  };\<close>
  The closure writes the flag of the view; the flag is passed in and returned.
\<close>

definition getSource :: "string \<Rightarrow> string \<Rightarrow> bool \<Rightarrow> string \<times> bool" where
  "getSource source scopedSource getSourceHasBeenCalled =
     (source @ ''.'' @ scopedSource, True)"

text \<open>The closure the callback finds under \<^verbatim>\<open>getSource\<close>, if there is one.\<close>

definition helper :: "params \<Rightarrow> string option" where
  "helper args =
     (case args ''getSource'' of
        Some (GetSourceFn source) \<Rightarrow> Some source
      | _ \<Rightarrow> None)"

text \<open>
  Running the callback's behaviour against the view's flag. Calling a \<^verbatim>\<open>getSource\<close>
  that is absent, or that is data, throws a TypeError, which leaves the view as any
  other exception of the callback does.
\<close>

primrec run :: "render \<Rightarrow> string option \<Rightarrow> bool \<Rightarrow> (error + jsval) \<times> bool" where
  "run (Return v) h called = (Inr v, called)"
| "run (Throw e) h called = (Inl (Thrown e), called)"
| "run (CallGetSource scopedSource k) h called =
     (case h of
        None \<Rightarrow> (Inl TypeError, called)
      | Some source \<Rightarrow>
          run (k (fst (getSource source scopedSource called))) h
            (snd (getSource source scopedSource called)))"

text \<open>The relative paths \<^verbatim>\<open>getSource\<close> was invoked with during the call, in order.\<close>

primrec invocations :: "render \<Rightarrow> string option \<Rightarrow> string list" where
  "invocations (Return v) h = []"
| "invocations (Throw e) h = []"
| "invocations (CallGetSource scopedSource k) h =
     (case h of
        None \<Rightarrow> []
      | Some source \<Rightarrow> scopedSource # invocations (k (source @ ''.'' @ scopedSource)) h)"

section \<open>The components\<close>

text \<open>
  \<^verbatim>\<open>interface Props\<close>: \<^verbatim>\<open>children\<close> is the render callback, \<^verbatim>\<open>source?: string\<close> and
  \<^verbatim>\<open>index?: number\<close> are optional, and every other property (\<^verbatim>\<open>form\<close>, \<^verbatim>\<open>formData\<close>,
  \<^verbatim>\<open>record\<close> and whatever the index signature \<^verbatim>\<open>[key: string]: any\<close> admits) is in
  \<open>others\<close>. \<open>None\<close> is a property that is absent or \<^verbatim>\<open>undefined\<close>.
\<close>

record props =
  children :: FormDataConsumerRender
  source :: "string option"
  index :: "int option"
  others :: "string \<rightharpoonup> jsval"

text \<open>What one call of a component did.\<close>

record outcome =
  returned :: "error + jsval"
  children_calls :: "params list"
  console :: "string list"

text \<open>
  Modelled from the spec: \<^verbatim>\<open>warning\<close> is imported from \<^verbatim>\<open>../util/warning\<close>, which is
  not among the sources. The spec has it emit a developer-facing warning when its
  condition holds; it is advisory only and does not alter the result.
\<close>

definition warning :: "bool \<Rightarrow> string \<Rightarrow> string list \<Rightarrow> string list" where
  "warning condition message log =
     (if condition then log @ [message] else log)"

text \<open>The message, the whole template literal with its usage example.\<close>

definition getSource_message :: string where
  "getSource_message =
     ''You'' @ [CHR 0x27] @ ''re using a FormDataConsumer inside an ArrayInput and you did not call the getSource function supplied by the FormDataConsumer component. This is required for your inputs to get the proper source.'' @ [CHR 0x0A] @
     [CHR 0x0A] @
     ''<ArrayInput source='' @ [CHR 0x22] @ ''users'' @ [CHR 0x22] @ ''>'' @ [CHR 0x0A] @
     ''    <SimpleFormIterator>'' @ [CHR 0x0A] @
     ''        <TextInput source='' @ [CHR 0x22] @ ''name'' @ [CHR 0x22] @ '' />'' @ [CHR 0x0A] @
     [CHR 0x0A] @
     ''        <FormDataConsumer>'' @ [CHR 0x0A] @
     ''            {({'' @ [CHR 0x0A] @
     ''                formData, // The whole form data'' @ [CHR 0x0A] @
     ''                scopedFormData, // The data for this item of the ArrayInput'' @ [CHR 0x0A] @
     ''                getSource, // A function to get the valid source inside an ArrayInput'' @ [CHR 0x0A] @
     ''                ...rest,'' @ [CHR 0x0A] @
     ''            }) =>'' @ [CHR 0x0A] @
     ''                scopedFormData.name ? ('' @ [CHR 0x0A] @
     ''                    <SelectInput'' @ [CHR 0x0A] @
     ''                        source={getSource('' @ [CHR 0x27] @ ''role'' @ [CHR 0x27] @ '')} // Will translate to '' @ [CHR 0x22] @ ''users[0].role'' @ [CHR 0x22] @ [CHR 0x0A] @
     ''                        choices={[{id: 1, name: '' @ [CHR 0x27] @ ''Admin'' @ [CHR 0x27] @ ''}, {id: 2, name: '' @ [CHR 0x27] @ ''User'' @ [CHR 0x27] @ ''},'' @ [CHR 0x0A] @
     ''                        {...rest}'' @ [CHR 0x0A] @
     ''                    />'' @ [CHR 0x0A] @
     ''                ) : null'' @ [CHR 0x0A] @
     ''            }'' @ [CHR 0x0A] @
     ''        </FormDataConsumer>'' @ [CHR 0x0A] @
     ''    </SimpleFormIterator>'' @ [CHR 0x0A] @
     ''</ArrayInput>''"

text \<open>
  \<^verbatim>\<open>const { children, form, formData, source, index, ...rest } = props;\<close>
\<close>

definition destructured :: "string set" where
  "destructured = {''children'', ''form'', ''formData'', ''source'', ''index''}"

definition formData :: "props \<Rightarrow> jsval" where
  "formData p = (case others p ''formData'' of None \<Rightarrow> JUndefined | Some v \<Rightarrow> v)"

definition rest :: "props \<Rightarrow> (string \<rightharpoonup> jsval)" where
  "rest p = others p |` (- destructured)"

text \<open>
  \<^verbatim>\<open>{ ...rest }\<close> at the end of an object literal: the properties of \<open>rest\<close> are
  written last, over a property of the same name written before.
\<close>

definition spread :: "params \<Rightarrow> (string \<rightharpoonup> jsval) \<Rightarrow> params" where
  "spread obj r = obj ++ (map_option Data \<circ> r)"

text \<open>
  The argument of \<^verbatim>\<open>children\<close>:
  \<^verbatim>\<open>if (typeof index !== 'undefined' && source) {
      const scopedFormData = get(formData, source);
      const getSource = ...;
      ret = children({ formData, scopedFormData, getSource, ...rest });
  } else {
      ret = children({ formData, ...rest });
  }\<close>
\<close>

definition children_args :: "props \<Rightarrow> error + params" where
  "children_args p =
     (case source p of
        None \<Rightarrow> Inr (spread [''formData'' \<mapsto> Data (formData p)] (rest p))
      | Some s \<Rightarrow>
          if index p \<noteq> None \<and> s \<noteq> [] then
            (case get (formData p) s of
               Inl e \<Rightarrow> Inl e
             | Inr scopedFormData \<Rightarrow>
                 Inr (spread
                       [''formData'' \<mapsto> Data (formData p),
                        ''scopedFormData'' \<mapsto> Data scopedFormData,
                        ''getSource'' \<mapsto> GetSourceFn s]
                       (rest p)))
          else Inr (spread [''formData'' \<mapsto> Data (formData p)] (rest p)))"

definition FormDataConsumerView :: "props \<Rightarrow> outcome" where
  "FormDataConsumerView p =
     (case children_args p of
        Inl e \<Rightarrow> \<lparr>returned = Inl e, children_calls = [], console = []\<rparr>
      | Inr args \<Rightarrow>
          (case run (children p args) (helper args) False of
             (Inl e, getSourceHasBeenCalled) \<Rightarrow>
               \<lparr>returned = Inl e, children_calls = [args], console = []\<rparr>
           | (Inr ret, getSourceHasBeenCalled) \<Rightarrow>
               \<lparr>returned = Inr (if is_undefined ret then JNull else ret),
                children_calls = [args],
                console =
                  warning (index p \<noteq> None \<and> truthy ret \<and> \<not> getSourceHasBeenCalled)
                    getSource_message []\<rparr>))"

text \<open>
  The form the component is rendered in: what \<^verbatim>\<open>useWatch()\<close> returns and what
  \<^verbatim>\<open>getValues()\<close> of \<^verbatim>\<open>useFormContext()\<close> returns, both objects.
\<close>

record form_context =
  useWatch :: "(string \<times> jsval) list"
  getValues :: "(string \<times> jsval) list"

definition Object_keys :: "(string \<times> jsval) list \<Rightarrow> string list" where
  "Object_keys kvs = remdups (map fst kvs)"

text \<open>
  \<^verbatim>\<open>let formData = useWatch();
  if (Object.keys(formData).length === 0) { formData = getValues(); }
  return <FormDataConsumerView formData={formData} {...props} />;\<close>
  The props of the element are \<^verbatim>\<open>formData\<close> and then the spread of \<^verbatim>\<open>props\<close>, which
  writes over a \<^verbatim>\<open>formData\<close> of the same name; rendering the element calls the view
  with them.
\<close>

definition FormDataConsumer :: "form_context \<Rightarrow> props \<Rightarrow> outcome" where
  "FormDataConsumer ctx p =
     (let watched = useWatch ctx;
          snapshot = (if length (Object_keys watched) = 0 then getValues ctx else watched)
      in FormDataConsumerView (p\<lparr>others := [''formData'' \<mapsto> JObj snapshot] ++ others p\<rparr>))"

section \<open>Example inputs\<close>

text \<open>
  A callback that returns a fixed node and never looks at its parameters, and one
  that asks \<^verbatim>\<open>getSource\<close> for the path of an input and renders that input, as in
  \<^verbatim>\<open><SelectInput source={getSource('role')} />\<close>.
\<close>

definition renders :: "jsval \<Rightarrow> FormDataConsumerRender" where
  "renders node args = Return node"

definition renders_input :: "string \<Rightarrow> FormDataConsumerRender" where
  "renders_input name args =
     CallGetSource name (\<lambda>path. Return (JObj [(''input'', JStr path)]))"

text \<open>The form data \<^verbatim>\<open>{a: {b: {c: 1}}}\<close> and \<^verbatim>\<open>{users: [{name: "x"}]}\<close>.\<close>

definition nested_form :: "(string \<times> jsval) list" where
  "nested_form = [(''a'', JObj [(''b'', JObj [(''c'', JNum 1)])])]"

definition users_form :: "(string \<times> jsval) list" where
  "users_form = [(''users'', JArr [JObj [(''name'', JStr ''x'')]])]"

text \<open>Props of a consumer inside an iterator, and of one outside.\<close>

definition iterator_props :: "FormDataConsumerRender \<Rightarrow> string \<Rightarrow> jsval \<Rightarrow> props" where
  "iterator_props render path data =
     \<lparr>children = render, source = Some path, index = Some 0,
      others = [''formData'' \<mapsto> data, ''record'' \<mapsto> JObj [(''id'', JNum 1)]]\<rparr>"

definition plain_props :: "FormDataConsumerRender \<Rightarrow> jsval \<Rightarrow> props" where
  "plain_props render data =
     \<lparr>children = render, source = None, index = None,
      others = [''formData'' \<mapsto> data, ''record'' \<mapsto> JObj [(''id'', JNum 1)]]\<rparr>"

text \<open>
  Props of the connected component, which is given no \<^verbatim>\<open>formData\<close>, and two forms:
  one whose watched values are still empty, one that has been edited.
\<close>

definition connected_props :: "FormDataConsumerRender \<Rightarrow> props" where
  "connected_props render =
     \<lparr>children = render, source = None, index = None,
      others = [''record'' \<mapsto> JObj [(''id'', JNum 1)]]\<rparr>"

definition fresh_form :: form_context where
  "fresh_form = \<lparr>useWatch = [], getValues = users_form\<rparr>"

definition edited_form :: form_context where
  "edited_form = \<lparr>useWatch = nested_form, getValues = users_form\<rparr>"

section \<open>The lookup returns\<close>

lemma member_access_returns: "\<not> nullish v \<Longrightarrow> \<exists>r. member_access v k = Inr r"
  by (cases v) (auto split: option.splits)

lemma baseGet_returns: "\<exists>v. baseGet object ks = Inr v"
proof (induction ks arbitrary: object)
  case Nil
  show ?case by simp
next
  case (Cons k ks)
  show ?case
  proof (cases "nullish object")
    case True
    then show ?thesis by simp
  next
    case False
    then obtain r where r: "member_access object k = Inr r"
      using member_access_returns by blast
    with False Cons.IH [of r] show ?thesis by simp
  qed
qed

lemma get_returns: "\<exists>v. get object path = Inr v"
proof (cases "stringToPath path")
  case Nil
  then show ?thesis by (simp add: get_def)
next
  case (Cons k ks)
  with baseGet_returns [of object "k # ks"] show ?thesis
    by (simp add: get_def del: baseGet.simps)
qed

lemma member_access_not_own:
  "\<not> has_own v k \<Longrightarrow> member_access v k = Inr r \<Longrightarrow> r = JUndefined"
  by (cases v) (auto split: option.splits if_splits)

lemma baseGet_missing: "\<not> has_path object ks \<Longrightarrow> baseGet object ks = Inr JUndefined"
proof (induction ks arbitrary: object)
  case Nil
  then show ?case by simp
next
  case (Cons k ks)
  show ?case
  proof (cases "nullish object")
    case True
    then show ?thesis by simp
  next
    case False
    then obtain r where r: "member_access object k = Inr r"
      using member_access_returns by blast
    show ?thesis
    proof (cases "has_own object k")
      case True
      with Cons.prems r have "\<not> has_path r ks" by simp
      with Cons.IH r False show ?thesis by simp
    next
      case own: False
      with r have "r = JUndefined" using member_access_not_own by blast
      with r False show ?thesis
        by (cases ks) simp_all
    qed
  qed
qed

section \<open>One call of the view\<close>

lemma children_args_returns: "\<exists>args. children_args p = Inr args"
proof (cases "source p")
  case None
  then show ?thesis by (simp add: children_args_def)
next
  case (Some s)
  obtain v where "get (formData p) s = Inr v" using get_returns by blast
  with Some show ?thesis by (simp add: children_args_def)
qed

lemma run_flag: "snd (run t h c) = (c \<or> invocations t h \<noteq> [])"
  by (induction t arbitrary: c) (auto simp: getSource_def split: option.splits)

lemma view_calls: "children_args p = Inr args \<Longrightarrow> children_calls (FormDataConsumerView p) = [args]"
  by (simp add: FormDataConsumerView_def split: prod.splits sum.splits)

lemma view_returned:
  "children_args p = Inr args \<Longrightarrow>
   returned (FormDataConsumerView p) =
     (case fst (run (children p args) (helper args) False) of
        Inl e \<Rightarrow> Inl e
      | Inr ret \<Rightarrow> Inr (if is_undefined ret then JNull else ret))"
  by (simp add: FormDataConsumerView_def split: prod.splits sum.splits)

lemma view_console:
  "children_args p = Inr args \<Longrightarrow>
   console (FormDataConsumerView p) =
     (case fst (run (children p args) (helper args) False) of
        Inl e \<Rightarrow> []
      | Inr ret \<Rightarrow>
          if index p \<noteq> None \<and> truthy ret \<and> invocations (children p args) (helper args) = []
          then [getSource_message] else [])"
proof -
  assume a: "children_args p = Inr args"
  obtain r c where rc: "run (children p args) (helper args) False = (r, c)"
    by (cases "run (children p args) (helper args) False")
  have "c = (invocations (children p args) (helper args) \<noteq> [])"
    using run_flag [of "children p args" "helper args" False] rc by simp
  with a rc show ?thesis
    by (cases r) (simp_all add: FormDataConsumerView_def warning_def)
qed


lemma spread_apply:
  "spread obj r k = (case r k of None \<Rightarrow> obj k | Some v \<Rightarrow> Some (Data v))"
  by (simp add: spread_def map_add_def split: option.splits)

lemma rest_apply: "rest p k = (if k \<in> destructured then None else others p k)"
  by (simp add: rest_def restrict_map_def)

lemma is_undefined_iff: "is_undefined v \<longleftrightarrow> v = JUndefined"
  by (cases v) simp_all

lemma children_args_scoped:
  "index p = Some i \<Longrightarrow> source p = Some s \<Longrightarrow> s \<noteq> [] \<Longrightarrow> get (formData p) s = Inr v \<Longrightarrow>
   children_args p =
     Inr (spread [''formData'' \<mapsto> Data (formData p), ''scopedFormData'' \<mapsto> Data v,
                  ''getSource'' \<mapsto> GetSourceFn s] (rest p))"
  by (simp add: children_args_def)

lemma children_args_plain:
  "index p = None \<or> source p = None \<or> source p = Some [] \<Longrightarrow>
   children_args p = Inr (spread [''formData'' \<mapsto> Data (formData p)] (rest p))"
  by (auto simp: children_args_def split: option.splits)

lemma args_formData:
  "children_args p = Inr args \<Longrightarrow> args ''formData'' = Some (Data (formData p))"
  by (auto simp: children_args_def spread_apply rest_apply destructured_def
      split: option.splits if_splits sum.splits)

lemma args_destructured:
  "children_args p = Inr args \<Longrightarrow>
   args ''children'' = None \<and> args ''form'' = None \<and> args ''source'' = None \<and>
   args ''index'' = None"
  by (auto simp: children_args_def spread_apply rest_apply destructured_def
      split: option.splits if_splits sum.splits)

lemma plain_args_no_helper:
  "spread [''formData'' \<mapsto> Data d] r k \<noteq> Some (GetSourceFn s)"
  by (simp add: spread_apply split: option.splits)

lemma plain_args_helper: "helper (spread [''formData'' \<mapsto> Data d] r) = None"
  by (simp add: helper_def spread_apply split: option.splits)

lemma connected_view:
  "FormDataConsumer ctx p =
     FormDataConsumerView
       (p\<lparr>others := [''formData'' \<mapsto>
            JObj (if length (Object_keys (useWatch ctx)) = 0 then getValues ctx
                  else useWatch ctx)] ++ others p\<rparr>)"
  by (simp add: FormDataConsumer_def Let_def)

lemma connected_formData:
  "others p ''formData'' = None \<Longrightarrow>
   formData (p\<lparr>others := [''formData'' \<mapsto> d] ++ others p\<rparr>) = d"
  by (simp add: formData_def map_add_def)

lemma scoped_lookup_passed:
  assumes "index p = Some i" and "source p = Some s" and "s \<noteq> []"
    and "others p ''scopedFormData'' = None" and "children_args p = Inr args"
  shows "\<exists>v. get (formData p) s = Inr v \<and> args ''scopedFormData'' = Some (Data v)"
proof -
  obtain v where v: "get (formData p) s = Inr v"
    using get_returns by blast
  have "args = spread [''formData'' \<mapsto> Data (formData p), ''scopedFormData'' \<mapsto> Data v,
                  ''getSource'' \<mapsto> GetSourceFn s] (rest p)"
    using children_args_scoped [OF assms(1-3) v] assms(5) by simp
  then have "args ''scopedFormData'' = Some (Data v)"
    using assms(4) by (simp add: spread_apply rest_apply)
  with v show ?thesis by blast
qed

lemma connected_passes_snapshot:
  assumes "others p ''formData'' = None"
  shows "\<exists>args. children_calls (FormDataConsumer ctx p) = [args] \<and>
           args ''formData'' =
             Some (Data (JObj (if length (Object_keys (useWatch ctx)) = 0 then getValues ctx
                               else useWatch ctx)))"
proof -
  let ?snapshot = "if length (Object_keys (useWatch ctx)) = 0 then getValues ctx else useWatch ctx"
  let ?p = "p\<lparr>others := [''formData'' \<mapsto> JObj ?snapshot] ++ others p\<rparr>"
  obtain args where args: "children_args ?p = Inr args"
    using children_args_returns by blast
  have "children_calls (FormDataConsumer ctx p) = [args]"
    using view_calls [OF args] by (simp only: connected_view)
  moreover have "args ''formData'' = Some (Data (JObj ?snapshot))"
    using args_formData [OF args] connected_formData [OF assms] by simp
  ultimately show ?thesis by blast
qed

text \<open>The definitions a concrete call is evaluated with.\<close>

lemmas eval_defs =
  FormDataConsumerView_def FormDataConsumer_def children_args_def formData_def rest_def
  destructured_def spread_def get_def stringToPath_def is_separator_def helper_def
  warning_def renders_def renders_input_def getSource_def iterator_props_def plain_props_def
  nested_form_def users_form_def connected_props_def fresh_form_def edited_form_def
  Object_keys_def array_index_def digit_of_def
  map_add_def restrict_map_def Let_def

section \<open>The properties of the specification\<close>

text \<open>
  C1, as amended. In an iterator (\<^verbatim>\<open>index\<close> defined, \<^verbatim>\<open>source\<close> a non-empty string) the
  render callback is called once, and the \<^verbatim>\<open>scopedFormData\<close> it is handed is the
  lookup of \<^verbatim>\<open>source\<close> in \<^verbatim>\<open>formData\<close>, provided the props carry no property named
  \<^verbatim>\<open>scopedFormData\<close> of their own. With \<^verbatim>\<open>source = "a.b"\<close> and
  \<^verbatim>\<open>formData = {a: {b: {c: 1}}}\<close> it is \<^verbatim>\<open>{c: 1}\<close>.
\<close>

theorem scopedFormData_is_lookup:
  assumes "index p = Some i" and "source p = Some s" and "s \<noteq> []"
    and "others p ''scopedFormData'' = None"
  shows "\<exists>v args. get (formData p) s = Inr v \<and>
           children_calls (FormDataConsumerView p) = [args] \<and>
           args ''scopedFormData'' = Some (Data v)"
proof -
  obtain v where v: "get (formData p) s = Inr v"
    using get_returns by blast
  let ?args = "spread [''formData'' \<mapsto> Data (formData p), ''scopedFormData'' \<mapsto> Data v,
                  ''getSource'' \<mapsto> GetSourceFn s] (rest p)"
  have args: "children_args p = Inr ?args"
    using assms(1-3) v by (rule children_args_scoped)
  have "?args ''scopedFormData'' = Some (Data v)"
    using assms(4) by (simp add: spread_apply rest_apply)
  with v view_calls [OF args] show ?thesis by blast
qed

theorem scopedFormData_is_lookup_witness:
  "\<exists>args. children_calls
            (FormDataConsumerView (iterator_props (renders JNull) ''a.b'' (JObj nested_form))) = [args] \<and>
          args ''scopedFormData'' = Some (Data (JObj [(''c'', JNum 1)]))"
  using scopedFormData_is_lookup
    [of "iterator_props (renders JNull) ''a.b'' (JObj nested_form)" 0 "''a.b''"]
  by (auto simp: iterator_props_def formData_def nested_form_def get_def stringToPath_def
      is_separator_def)

text \<open>
  The claim as it was stated fails when the props carry a \<^verbatim>\<open>scopedFormData\<close> of their
  own: \<^verbatim>\<open>...rest\<close> is written last in the object literal, so the callback is handed
  the caller's 7 and not the \<^verbatim>\<open>{c: 1}\<close> found in the form data.
\<close>

theorem scopedFormData_overridden_counterexample:
  "index (iterator_props (renders JNull) ''a.b'' (JObj nested_form)) = Some 0 \<and>
   source (iterator_props (renders JNull) ''a.b'' (JObj nested_form)) = Some ''a.b'' \<and>
   get (JObj nested_form) ''a.b'' = Inr (JObj [(''c'', JNum 1)]) \<and>
   length (children_calls (FormDataConsumerView
     ((iterator_props (renders JNull) ''a.b'' (JObj nested_form))
        \<lparr>others := [''formData'' \<mapsto> JObj nested_form, ''scopedFormData'' \<mapsto> JNum 7]\<rparr>))) = 1 \<and>
   hd (children_calls (FormDataConsumerView
     ((iterator_props (renders JNull) ''a.b'' (JObj nested_form))
        \<lparr>others := [''formData'' \<mapsto> JObj nested_form, ''scopedFormData'' \<mapsto> JNum 7]\<rparr>)))
     ''scopedFormData'' = Some (Data (JNum 7))"
  by (simp add: eval_defs)

text \<open>
  C2, as amended. The callback is called once. A warning is emitted if and only if
  the callback returned a node, \<^verbatim>\<open>index\<close> is defined, the node is truthy (the test
  \<^verbatim>\<open>ret &&\<close> of the view: not \<^verbatim>\<open>undefined\<close>, \<^verbatim>\<open>null\<close>, \<^verbatim>\<open>false\<close>, \<^verbatim>\<open>0\<close> or the empty string)
  and \<^verbatim>\<open>getSource\<close> was not invoked during the call. The console then holds the one
  message and nothing else. Whether or not the warning fires, what the view returns
  is the callback's node (\<^verbatim>\<open>null\<close> for \<^verbatim>\<open>undefined\<close>).
\<close>

theorem warning_iff_getSource_unused:
  "\<exists>args. children_calls (FormDataConsumerView p) = [args] \<and>
     (console (FormDataConsumerView p) \<noteq> [] \<longleftrightarrow>
        (\<exists>ret. fst (run (children p args) (helper args) False) = Inr ret \<and>
           index p \<noteq> None \<and> truthy ret \<and>
           invocations (children p args) (helper args) = [])) \<and>
     (console (FormDataConsumerView p) = [] \<or>
      console (FormDataConsumerView p) = [getSource_message]) \<and>
     (\<forall>ret. fst (run (children p args) (helper args) False) = Inr ret \<longrightarrow>
        returned (FormDataConsumerView p) = Inr (if ret = JUndefined then JNull else ret))"
proof -
  obtain args where args: "children_args p = Inr args"
    using children_args_returns by blast
  let ?r = "fst (run (children p args) (helper args) False)"
  have calls: "children_calls (FormDataConsumerView p) = [args]"
    using args by (rule view_calls)
  have cons: "console (FormDataConsumerView p) =
     (case ?r of
        Inl e \<Rightarrow> []
      | Inr ret \<Rightarrow>
          if index p \<noteq> None \<and> truthy ret \<and> invocations (children p args) (helper args) = []
          then [getSource_message] else [])"
    using args by (rule view_console)
  have ret: "returned (FormDataConsumerView p) =
     (case ?r of
        Inl e \<Rightarrow> Inl e
      | Inr ret \<Rightarrow> Inr (if is_undefined ret then JNull else ret))"
    using args by (rule view_returned)
  have iff: "console (FormDataConsumerView p) \<noteq> [] \<longleftrightarrow>
        (\<exists>ret. ?r = Inr ret \<and> index p \<noteq> None \<and> truthy ret \<and>
           invocations (children p args) (helper args) = [])"
    unfolding cons by (cases ?r) auto
  have once: "console (FormDataConsumerView p) = [] \<or>
      console (FormDataConsumerView p) = [getSource_message]"
    unfolding cons by (cases ?r) auto
  have same: "\<forall>ret. ?r = Inr ret \<longrightarrow>
        returned (FormDataConsumerView p) = Inr (if ret = JUndefined then JNull else ret)"
    unfolding ret by (auto simp: is_undefined_iff)
  from calls iff once same show ?thesis by blast
qed

theorem warning_iff_getSource_unused_witness:
  "console (FormDataConsumerView (iterator_props (renders (JStr ''x'')) ''users.0'' (JObj users_form)))
     = [getSource_message] \<and>
   returned (FormDataConsumerView (iterator_props (renders (JStr ''x'')) ''users.0'' (JObj users_form)))
     = Inr (JStr ''x'') \<and>
   console (FormDataConsumerView (iterator_props (renders_input ''role'') ''users.0'' (JObj users_form)))
     = [] \<and>
   returned (FormDataConsumerView (iterator_props (renders_input ''role'') ''users.0'' (JObj users_form)))
     = Inr (JObj [(''input'', JStr ''users.0.role'')]) \<and>
   console (FormDataConsumerView (iterator_props (renders (JBool False)) ''users.0'' (JObj users_form)))
     = [] \<and>
   returned (FormDataConsumerView (iterator_props (renders (JBool False)) ''users.0'' (JObj users_form)))
     = Inr (JBool False) \<and>
   console (FormDataConsumerView (iterator_props (renders (JStr [])) ''users.0'' (JObj users_form)))
     = [] \<and>
   console (FormDataConsumerView (plain_props (renders (JStr ''x'')) (JObj users_form)))
     = []"
  using warning_iff_getSource_unused
      [of "iterator_props (renders (JStr ''x'')) ''users.0'' (JObj users_form)"]
    warning_iff_getSource_unused
      [of "iterator_props (renders_input ''role'') ''users.0'' (JObj users_form)"]
    warning_iff_getSource_unused
      [of "iterator_props (renders (JBool False)) ''users.0'' (JObj users_form)"]
    warning_iff_getSource_unused
      [of "iterator_props (renders (JStr [])) ''users.0'' (JObj users_form)"]
    warning_iff_getSource_unused
      [of "plain_props (renders (JStr ''x'')) (JObj users_form)"]
  by (simp add: eval_defs)

text \<open>
  The claim as it was stated, for a non-empty result, fails both ways. In an
  iterator, a callback that never invokes \<^verbatim>\<open>getSource\<close> and returns the number 0 has
  that 0 returned by the view, to be rendered as the text \<^verbatim>\<open>0\<close>, and nothing is logged;
  one that returns the empty array, which renders nothing, is warned about.
\<close>

theorem zero_result_not_warned_counterexample:
  "index (iterator_props (renders (JNum 0)) ''users.0'' (JObj users_form)) = Some 0 \<and>
   invocations
     (children (iterator_props (renders (JNum 0)) ''users.0'' (JObj users_form))
        (hd (children_calls (FormDataConsumerView
               (iterator_props (renders (JNum 0)) ''users.0'' (JObj users_form))))))
     (Some ''users.0'') = [] \<and>
   returned (FormDataConsumerView (iterator_props (renders (JNum 0)) ''users.0'' (JObj users_form)))
     = Inr (JNum 0) \<and>
   console (FormDataConsumerView (iterator_props (renders (JNum 0)) ''users.0'' (JObj users_form)))
     = [] \<and>
   returned (FormDataConsumerView (iterator_props (renders (JArr [])) ''users.0'' (JObj users_form)))
     = Inr (JArr []) \<and>
   console (FormDataConsumerView (iterator_props (renders (JArr [])) ''users.0'' (JObj users_form)))
     = [getSource_message]"
  by (simp add: eval_defs)

text \<open>
  C3. When the render callback returns \<^verbatim>\<open>undefined\<close> the view returns \<^verbatim>\<open>null\<close>; when it
  returns anything else the view returns exactly that; the view never returns
  \<^verbatim>\<open>undefined\<close>.
\<close>

theorem undefined_becomes_null:
  "\<exists>args. children_calls (FormDataConsumerView p) = [args] \<and>
     (\<forall>ret. fst (run (children p args) (helper args) False) = Inr ret \<longrightarrow>
        (ret = JUndefined \<longrightarrow> returned (FormDataConsumerView p) = Inr JNull) \<and>
        (ret \<noteq> JUndefined \<longrightarrow> returned (FormDataConsumerView p) = Inr ret)) \<and>
     returned (FormDataConsumerView p) \<noteq> Inr JUndefined"
proof -
  obtain args where args: "children_args p = Inr args"
    using children_args_returns by blast
  let ?r = "fst (run (children p args) (helper args) False)"
  have ret: "returned (FormDataConsumerView p) =
     (case ?r of
        Inl e \<Rightarrow> Inl e
      | Inr ret \<Rightarrow> Inr (if is_undefined ret then JNull else ret))"
    using args by (rule view_returned)
  have "\<forall>ret. ?r = Inr ret \<longrightarrow>
        (ret = JUndefined \<longrightarrow> returned (FormDataConsumerView p) = Inr JNull) \<and>
        (ret \<noteq> JUndefined \<longrightarrow> returned (FormDataConsumerView p) = Inr ret)"
    unfolding ret by (auto simp: is_undefined_iff)
  moreover have "returned (FormDataConsumerView p) \<noteq> Inr JUndefined"
    unfolding ret by (cases ?r) (auto simp: is_undefined_iff)
  ultimately show ?thesis
    using view_calls [OF args] by blast
qed

theorem undefined_becomes_null_witness:
  "returned (FormDataConsumerView (plain_props (renders JUndefined) (JObj nested_form))) = Inr JNull \<and>
   returned (FormDataConsumerView (plain_props (renders (JBool False)) (JObj nested_form)))
     = Inr (JBool False)"
  using undefined_becomes_null [of "plain_props (renders JUndefined) (JObj nested_form)"]
    undefined_becomes_null [of "plain_props (renders (JBool False)) (JObj nested_form)"]
  by (simp add: eval_defs)

text \<open>
  C4, as amended. When the props of \<^verbatim>\<open>FormDataConsumer\<close> carry no \<^verbatim>\<open>formData\<close> of their
  own, the render callback is called once and the \<^verbatim>\<open>formData\<close> it is handed is what
  \<^verbatim>\<open>getValues()\<close> returns if the watched values have no key, and the watched values
  themselves otherwise.
\<close>

theorem formData_falls_back_to_getValues:
  assumes "others p ''formData'' = None"
  shows "\<exists>args. children_calls (FormDataConsumer ctx p) = [args] \<and>
           (length (Object_keys (useWatch ctx)) = 0 \<longrightarrow>
              args ''formData'' = Some (Data (JObj (getValues ctx)))) \<and>
           (length (Object_keys (useWatch ctx)) \<noteq> 0 \<longrightarrow>
              args ''formData'' = Some (Data (JObj (useWatch ctx))))"
proof -
  let ?snapshot = "if length (Object_keys (useWatch ctx)) = 0 then getValues ctx else useWatch ctx"
  let ?p = "p\<lparr>others := [''formData'' \<mapsto> JObj ?snapshot] ++ others p\<rparr>"
  obtain args where args: "children_args ?p = Inr args"
    using children_args_returns by blast
  have "children_calls (FormDataConsumer ctx p) = [args]"
    using view_calls [OF args] by (simp only: connected_view)
  moreover have "args ''formData'' = Some (Data (JObj ?snapshot))"
    using args_formData [OF args] connected_formData [OF assms] by simp
  ultimately show ?thesis by auto
qed

theorem formData_falls_back_to_getValues_witness:
  "length (Object_keys (useWatch fresh_form)) = 0 \<and>
   (\<exists>args. children_calls (FormDataConsumer fresh_form (connected_props (renders JNull))) = [args] \<and>
      args ''formData'' = Some (Data (JObj users_form))) \<and>
   length (Object_keys (useWatch edited_form)) \<noteq> 0 \<and>
   (\<exists>args. children_calls (FormDataConsumer edited_form (connected_props (renders JNull))) = [args] \<and>
      args ''formData'' = Some (Data (JObj nested_form)))"
  using formData_falls_back_to_getValues [of "connected_props (renders JNull)" fresh_form]
    formData_falls_back_to_getValues [of "connected_props (renders JNull)" edited_form]
  by (simp add: connected_props_def fresh_form_def edited_form_def Object_keys_def nested_form_def)

text \<open>
  The claim as it was stated fails when the props carry a \<^verbatim>\<open>formData\<close>: the element is
  built as \<^verbatim>\<open>formData={formData} {...props}\<close>, so the caller's 5 is passed down, not
  the values of the form.
\<close>

theorem formData_prop_wins_counterexample:
  "length (Object_keys (useWatch fresh_form)) = 0 \<and>
   getValues fresh_form = users_form \<and>
   length (children_calls (FormDataConsumer fresh_form (plain_props (renders JNull) (JNum 5)))) = 1 \<and>
   hd (children_calls (FormDataConsumer fresh_form (plain_props (renders JNull) (JNum 5))))
     ''formData'' = Some (Data (JNum 5))"
  by (simp add: eval_defs)

text \<open>
  C5. In an iterator whose props carry no \<^verbatim>\<open>getSource\<close> of their own, the callback
  finds under \<^verbatim>\<open>getSource\<close> the closure over the view's \<^verbatim>\<open>source\<close>. Invoked with any
  relative path, in any state of the flag, it returns \<^verbatim>\<open>source\<close>, a dot and the
  relative path, and sets the flag: the callback's run goes on with that string and
  with the flag set, and the invocation is recorded. Under \<^verbatim>\<open>source = "users.0"\<close>,
  \<^verbatim>\<open>getSource("role")\<close> is \<^verbatim>\<open>"users.0.role"\<close>.
\<close>

theorem getSource_concatenates:
  assumes "index p = Some i" and "source p = Some s" and "s \<noteq> []"
    and "others p ''getSource'' = None"
  shows "\<exists>args. children_calls (FormDataConsumerView p) = [args] \<and>
           args ''getSource'' = Some (GetSourceFn s) \<and>
           (\<forall>relativePath called k.
              getSource s relativePath called = (s @ ''.'' @ relativePath, True) \<and>
              run (CallGetSource relativePath k) (helper args) called =
                run (k (s @ ''.'' @ relativePath)) (helper args) True \<and>
              invocations (CallGetSource relativePath k) (helper args) \<noteq> [])"
proof -
  obtain v where v: "get (formData p) s = Inr v"
    using get_returns by blast
  let ?args = "spread [''formData'' \<mapsto> Data (formData p), ''scopedFormData'' \<mapsto> Data v,
                  ''getSource'' \<mapsto> GetSourceFn s] (rest p)"
  have args: "children_args p = Inr ?args"
    using assms(1-3) v by (rule children_args_scoped)
  have g: "?args ''getSource'' = Some (GetSourceFn s)"
    using assms(4) by (simp add: spread_apply rest_apply)
  then have h: "helper ?args = Some s"
    by (simp add: helper_def)
  have "\<forall>relativePath called k.
              getSource s relativePath called = (s @ ''.'' @ relativePath, True) \<and>
              run (CallGetSource relativePath k) (helper ?args) called =
                run (k (s @ ''.'' @ relativePath)) (helper ?args) True \<and>
              invocations (CallGetSource relativePath k) (helper ?args) \<noteq> []"
    unfolding h by (simp add: getSource_def)
  with view_calls [OF args] g show ?thesis by blast
qed

theorem getSource_concatenates_witness:
  "getSource ''users.0'' ''role'' False = (''users.0.role'', True) \<and>
   returned (FormDataConsumerView (iterator_props (renders_input ''role'') ''users.0'' (JObj users_form)))
     = Inr (JObj [(''input'', JStr ''users.0.role'')])"
  using getSource_concatenates
    [of "iterator_props (renders_input ''role'') ''users.0'' (JObj users_form)" 0 "''users.0''"]
  by (simp add: eval_defs)

text \<open>
  C6. When \<^verbatim>\<open>index\<close> is undefined, or \<^verbatim>\<open>source\<close> is undefined or empty, the callback is
  called once with \<^verbatim>\<open>{ formData, ...rest }\<close>: \<^verbatim>\<open>formData\<close> as the view received it, and
  every property the destructuring does not name, with the value the caller gave
  it. No property holds a \<^verbatim>\<open>getSource\<close> closure, and \<^verbatim>\<open>scopedFormData\<close> and
  \<^verbatim>\<open>getSource\<close> are absent unless the caller passed properties of those names.
\<close>

theorem plain_arguments:
  assumes "index p = None \<or> source p = None \<or> source p = Some []"
  shows "\<exists>args. children_calls (FormDataConsumerView p) = [args] \<and>
           args = spread [''formData'' \<mapsto> Data (formData p)] (rest p) \<and>
           args ''formData'' = Some (Data (formData p)) \<and>
           (\<forall>k. k \<notin> destructured \<longrightarrow> args k = map_option Data (others p k)) \<and>
           (\<forall>k s. args k \<noteq> Some (GetSourceFn s)) \<and>
           helper args = None \<and>
           (others p ''scopedFormData'' = None \<longrightarrow> args ''scopedFormData'' = None) \<and>
           (others p ''getSource'' = None \<longrightarrow> args ''getSource'' = None)"
proof -
  let ?args = "spread [''formData'' \<mapsto> Data (formData p)] (rest p)"
  have args: "children_args p = Inr ?args"
    using assms by (rule children_args_plain)
  have pass: "\<forall>k. k \<notin> destructured \<longrightarrow> ?args k = map_option Data (others p k)"
    by (auto simp: spread_apply rest_apply destructured_def split: option.splits)
  have sf: "others p ''scopedFormData'' = None \<longrightarrow> ?args ''scopedFormData'' = None"
    by (simp add: spread_apply rest_apply)
  have gs: "others p ''getSource'' = None \<longrightarrow> ?args ''getSource'' = None"
    by (simp add: spread_apply rest_apply)
  from pass sf gs show ?thesis
    by (intro exI [of _ ?args] conjI)
      (simp_all add: view_calls [OF args] args_formData [OF args] plain_args_no_helper
         plain_args_helper)
qed

theorem plain_arguments_witness:
  "\<exists>args. children_calls (FormDataConsumerView (plain_props (renders JNull) (JObj nested_form))) = [args] \<and>
     args ''formData'' = Some (Data (JObj nested_form)) \<and>
     args ''record'' = Some (Data (JObj [(''id'', JNum 1)])) \<and>
     args ''scopedFormData'' = None \<and> args ''getSource'' = None"
  using plain_arguments [of "plain_props (renders JNull) (JObj nested_form)"]
  by (auto simp: plain_props_def formData_def destructured_def)

text \<open>
  C7. The lookup of any path in any form data returns a value and raises nothing;
  when some key of the path is not an own property of the value reached so far, or
  that value is \<^verbatim>\<open>null\<close> or \<^verbatim>\<open>undefined\<close>, what it returns is \<^verbatim>\<open>undefined\<close>. So the view
  always gets as far as building the argument of the callback.
\<close>

theorem lookup_never_fails:
  "(\<exists>v. get object path = Inr v) \<and>
   (\<not> has_path object (stringToPath path) \<longrightarrow> get object path = Inr JUndefined) \<and>
   (\<exists>args. children_args p = Inr args)"
proof -
  have "get object path = Inr JUndefined" if "\<not> has_path object (stringToPath path)"
  proof (cases "stringToPath path")
    case Nil
    then show ?thesis by (simp add: get_def)
  next
    case (Cons k ks)
    with that baseGet_missing [of object "k # ks"] show ?thesis
      by (simp add: get_def del: baseGet.simps has_path.simps)
  qed
  with get_returns children_args_returns show ?thesis by blast
qed

theorem lookup_never_fails_witness:
  "\<not> has_path (JObj users_form) (stringToPath ''users.1.name'') \<and>
   get (JObj users_form) ''users.1.name'' = Inr JUndefined \<and>
   \<not> has_path (JObj [(''users'', JNull)]) (stringToPath ''users.0.name'') \<and>
   get (JObj [(''users'', JNull)]) ''users.0.name'' = Inr JUndefined"
  using lookup_never_fails [of "JObj users_form" "''users.1.name''"]
    lookup_never_fails [of "JObj [(''users'', JNull)]" "''users.0.name''"]
  by (simp add: users_form_def stringToPath_def is_separator_def array_index_def digit_of_def)

text \<open>
  C8, as amended. The components only read the form data. The view hands the
  callback, under \<^verbatim>\<open>formData\<close>, the very value it received as its \<^verbatim>\<open>formData\<close> prop, and
  the \<^verbatim>\<open>scopedFormData\<close> it computes in an iterator is the lookup in that same value.
  When the props of \<^verbatim>\<open>FormDataConsumer\<close> carry no \<^verbatim>\<open>formData\<close> of their own, the value
  its callback is handed is one of the two snapshots of the form: the watched values
  or what \<^verbatim>\<open>getValues()\<close> returns.
\<close>

theorem snapshot_handed_on_unchanged:
  "\<exists>args. children_calls (FormDataConsumerView p) = [args] \<and>
     args ''formData'' = Some (Data (formData p)) \<and>
     (\<forall>i s. index p = Some i \<and> source p = Some s \<and> s \<noteq> [] \<and>
            others p ''scopedFormData'' = None \<longrightarrow>
        (\<exists>v. get (formData p) s = Inr v \<and> args ''scopedFormData'' = Some (Data v))) \<and>
     (others p ''formData'' = None \<longrightarrow>
        (\<exists>args'. children_calls (FormDataConsumer ctx p) = [args'] \<and>
           (args' ''formData'' = Some (Data (JObj (useWatch ctx))) \<or>
            args' ''formData'' = Some (Data (JObj (getValues ctx))))))"
proof -
  obtain args where args: "children_args p = Inr args"
    using children_args_returns by blast
  have scoped: "\<forall>i s. index p = Some i \<and> source p = Some s \<and> s \<noteq> [] \<and>
            others p ''scopedFormData'' = None \<longrightarrow>
        (\<exists>v. get (formData p) s = Inr v \<and> args ''scopedFormData'' = Some (Data v))"
    using scoped_lookup_passed args by blast
  have connected: "\<exists>args'. children_calls (FormDataConsumer ctx p) = [args'] \<and>
           (args' ''formData'' = Some (Data (JObj (useWatch ctx))) \<or>
            args' ''formData'' = Some (Data (JObj (getValues ctx))))"
    if "others p ''formData'' = None"
    using connected_passes_snapshot [OF that, of ctx]
    by (cases "length (Object_keys (useWatch ctx)) = 0") auto
  from scoped connected show ?thesis
    by (intro exI [of _ args] conjI)
      (simp_all add: view_calls [OF args] args_formData [OF args])
qed

theorem snapshot_handed_on_unchanged_witness:
  "(\<exists>args. children_calls
       (FormDataConsumerView (iterator_props (renders JNull) ''users.0'' (JObj users_form))) = [args] \<and>
      args ''formData'' = Some (Data (JObj users_form)) \<and>
      args ''scopedFormData'' = Some (Data (JObj [(''name'', JStr ''x'')]))) \<and>
   (\<exists>args. children_calls (FormDataConsumer edited_form (connected_props (renders JNull))) = [args] \<and>
      args ''formData'' = Some (Data (JObj nested_form)))"
  using snapshot_handed_on_unchanged
      [of "iterator_props (renders JNull) ''users.0'' (JObj users_form)" edited_form]
    snapshot_handed_on_unchanged [of "connected_props (renders JNull)" edited_form]
  by (simp add: eval_defs)

text \<open>
  The claim as it was stated fails for \<^verbatim>\<open>FormDataConsumer\<close> when the props carry a
  \<^verbatim>\<open>formData\<close>: the callback is handed the caller's value, which is neither snapshot
  of the form.
\<close>

theorem caller_formData_replaces_snapshot_counterexample:
  "useWatch edited_form = nested_form \<and> getValues edited_form = users_form \<and>
   length (children_calls
     (FormDataConsumer edited_form (plain_props (renders JNull) (JStr ''mine'')))) = 1 \<and>
   hd (children_calls
     (FormDataConsumer edited_form (plain_props (renders JNull) (JStr ''mine''))))
     ''formData'' = Some (Data (JStr ''mine''))"
  by (simp add: eval_defs)

text \<open>
  C9. In either branch, \<^verbatim>\<open>rest\<close> has none of the properties the destructuring
  names. The argument of the callback therefore has no \<^verbatim>\<open>form\<close>, \<^verbatim>\<open>source\<close>, \<^verbatim>\<open>index\<close> or
  \<^verbatim>\<open>children\<close>, and its \<^verbatim>\<open>formData\<close> is the one the literal writes, also when the caller
  supplied \<^verbatim>\<open>source\<close> without \<^verbatim>\<open>index\<close>.
\<close>

theorem destructured_props_not_passed:
  "\<exists>args. children_calls (FormDataConsumerView p) = [args] \<and>
     (\<forall>k \<in> destructured. rest p k = None) \<and>
     args ''form'' = None \<and> args ''source'' = None \<and> args ''index'' = None \<and>
     args ''children'' = None \<and>
     args ''formData'' = Some (Data (formData p))"
proof -
  obtain args where args: "children_args p = Inr args"
    using children_args_returns by blast
  have "\<forall>k \<in> destructured. rest p k = None"
    by (simp add: rest_apply)
  then show ?thesis
    by (intro exI [of _ args] conjI)
      (simp_all add: view_calls [OF args] args_formData [OF args] args_destructured [OF args])
qed

theorem destructured_props_not_passed_witness:
  "\<exists>args. children_calls (FormDataConsumerView
       \<lparr>children = renders JNull, source = Some ''users'', index = None,
        others = [''form'' \<mapsto> JStr ''post_form'', ''formData'' \<mapsto> JObj users_form,
                  ''record'' \<mapsto> JObj [(''id'', JNum 1)]]\<rparr>) = [args] \<and>
     args ''form'' = None \<and> args ''source'' = None \<and> args ''index'' = None \<and>
     args ''formData'' = Some (Data (JObj users_form)) \<and>
     args ''record'' = Some (Data (JObj [(''id'', JNum 1)]))"
  using destructured_props_not_passed
    [of "\<lparr>children = renders JNull, source = Some ''users'', index = None,
        others = [''form'' \<mapsto> JStr ''post_form'', ''formData'' \<mapsto> JObj users_form,
                  ''record'' \<mapsto> JObj [(''id'', JNum 1)]]\<rparr>"]
  by (simp add: eval_defs)

text \<open>
  C10, as amended. When \<^verbatim>\<open>index\<close> is defined and \<^verbatim>\<open>source\<close> is undefined or empty, the
  callback is called with \<^verbatim>\<open>{ formData, ...rest }\<close>, which holds no \<^verbatim>\<open>getSource\<close>
  closure; and the warning is emitted all the same exactly when the callback returns
  a truthy node (not \<^verbatim>\<open>undefined\<close>, \<^verbatim>\<open>null\<close>, \<^verbatim>\<open>false\<close>, \<^verbatim>\<open>0\<close> or the empty string).
\<close>

theorem warning_without_helper:
  assumes "index p = Some i" and "source p = None \<or> source p = Some []"
  shows "\<exists>args. children_calls (FormDataConsumerView p) = [args] \<and>
           args = spread [''formData'' \<mapsto> Data (formData p)] (rest p) \<and>
           (\<forall>k s. args k \<noteq> Some (GetSourceFn s)) \<and>
           helper args = None \<and>
           (\<forall>ret. fst (run (children p args) (helper args) False) = Inr ret \<longrightarrow>
              console (FormDataConsumerView p) =
                (if truthy ret then [getSource_message] else []))"
proof -
  let ?args = "spread [''formData'' \<mapsto> Data (formData p)] (rest p)"
  have args: "children_args p = Inr ?args"
    using assms(2) by (intro children_args_plain) auto
  have never: "invocations t None = []" for t
    by (cases t) simp_all
  have "\<forall>ret. fst (run (children p ?args) (helper ?args) False) = Inr ret \<longrightarrow>
              console (FormDataConsumerView p) =
                (if truthy ret then [getSource_message] else [])"
    using assms(1) by (simp add: view_console [OF args] plain_args_helper never)
  then show ?thesis
    by (intro exI [of _ ?args] conjI)
      (simp_all add: view_calls [OF args] plain_args_no_helper plain_args_helper)
qed

theorem warning_without_helper_witness:
  "console (FormDataConsumerView (iterator_props (renders (JStr ''x'')) [] (JObj users_form)))
     = [getSource_message] \<and>
   (\<exists>args. children_calls
       (FormDataConsumerView (iterator_props (renders (JStr ''x'')) [] (JObj users_form))) = [args] \<and>
      args ''getSource'' = None) \<and>
   console (FormDataConsumerView (iterator_props (renders JNull) [] (JObj users_form))) = [] \<and>
   console (FormDataConsumerView (iterator_props (renders (JStr [])) [] (JObj users_form))) = []"
  using warning_without_helper
      [of "iterator_props (renders (JStr ''x'')) [] (JObj users_form)" 0]
    warning_without_helper
      [of "iterator_props (renders JNull) [] (JObj users_form)" 0]
    warning_without_helper
      [of "iterator_props (renders (JStr [])) [] (JObj users_form)" 0]
  by (simp add: eval_defs)

text \<open>
  The claim as it was stated, for every non-empty result, fails: with \<^verbatim>\<open>index\<close> defined
  and \<^verbatim>\<open>source\<close> empty, a callback that returns the number 0 has that 0 returned by
  the view, to be rendered as the text \<^verbatim>\<open>0\<close>, and nothing is logged.
\<close>

theorem zero_result_without_helper_counterexample:
  "index (iterator_props (renders (JNum 0)) [] (JObj users_form)) = Some 0 \<and>
   source (iterator_props (renders (JNum 0)) [] (JObj users_form)) = Some [] \<and>
   length (children_calls
     (FormDataConsumerView (iterator_props (renders (JNum 0)) [] (JObj users_form)))) = 1 \<and>
   hd (children_calls
     (FormDataConsumerView (iterator_props (renders (JNum 0)) [] (JObj users_form))))
     ''getSource'' = None \<and>
   returned (FormDataConsumerView (iterator_props (renders (JNum 0)) [] (JObj users_form)))
     = Inr (JNum 0) \<and>
   console (FormDataConsumerView (iterator_props (renders (JNum 0)) [] (JObj users_form)))
     = []"
  by (simp add: eval_defs)

end
